theory Spec2Isabelle
  imports Main
begin

section \<open>Values, responses and faults\<close>

text \<open>
  The handlers of \<^verbatim>\<open>createApp\<close> (app.js) only inspect the shape of a decoded JSON body:
  whether a value is an array, how long it is, and what its elements are. Numbers are
  opaque to them and are kept as integers.
\<close>

datatype json =
    JNull
  | JBool bool
  | JNum int
  | JStr string
  | JArr "json list"
  | JObj "(string \<times> json) list"

text \<open>\<^verbatim>\<open>Array.isArray(v)\<close> and the elements of an array.\<close>

fun isArray :: "json \<Rightarrow> bool" where
  "isArray (JArr xs) = True"
| "isArray v = False"

fun elems :: "json \<Rightarrow> json list" where
  "elems (JArr xs) = xs"
| "elems v = []"

text \<open>
  \<^verbatim>\<open>command[0]\<close> and \<^verbatim>\<open>command.slice(1)\<close>. The handlers read them only after they have
  checked that the array is not empty; on an empty array JavaScript yields
  \<^verbatim>\<open>undefined\<close>, which is written \<open>JNull\<close> here.
\<close>

definition command_name :: "json \<Rightarrow> json" where
  "command_name c = (case elems c of [] \<Rightarrow> JNull | x # xs \<Rightarrow> x)"

definition command_args :: "json \<Rightarrow> json list" where
  "command_args c = drop 1 (elems c)"

text \<open>A response: \<^verbatim>\<open>c.json(value, status)\<close> or \<^verbatim>\<open>c.text(text, status)\<close>.\<close>

datatype payload = JsonBody json | TextBody string

record response =
  res_status :: nat
  res_body :: payload

definition c_json :: "json \<Rightarrow> nat \<Rightarrow> response" where
  "c_json v st = \<lparr>res_status = st, res_body = JsonBody v\<rparr>"

definition c_text :: "string \<Rightarrow> nat \<Rightarrow> response" where
  "c_text t st = \<lparr>res_status = st, res_body = TextBody t\<rparr>"

text \<open>The object \<^verbatim>\<open>{ error: m }\<close> and the object \<^verbatim>\<open>{ result }\<close>.\<close>

definition error_obj :: "string \<Rightarrow> json" where
  "error_obj m = JObj [(''error'', JStr m)]"

definition result_obj :: "json \<Rightarrow> json" where
  "result_obj v = JObj [(''result'', v)]"

text \<open>
  A thrown value, as far as the code looks at it: whether it is an \<^verbatim>\<open>Error\<close>, its
  \<^verbatim>\<open>message\<close>, what \<^verbatim>\<open>String(error)\<close> gives, its \<^verbatim>\<open>status\<close> when that is a number, its
  \<^verbatim>\<open>res\<close> when present, and its stack trace.
\<close>

record js_error =
  instanceof_Error :: bool
  message :: string
  as_String :: string
  err_status :: "nat option"
  err_res :: "response option"
  stack :: string

text \<open>\<^verbatim>\<open>error instanceof Error ? error.message : String(error)\<close>\<close>

definition error_message :: "js_error \<Rightarrow> string" where
  "error_message e = (if instanceof_Error e then message e else as_String e)"

text \<open>The decimal digits of an index, as a template literal prints it.\<close>

definition digit_char :: "nat \<Rightarrow> char" where
  "digit_char d = ''0123456789'' ! d"

function show_nat :: "nat \<Rightarrow> string" where
  "show_nat n = (if n < 10 then [digit_char n] else show_nat (n div 10) @ [digit_char (n mod 10)])"
  by pat_completeness auto
termination
  by (relation "measure (\<lambda>n. n)") auto

declare show_nat.simps [simp del]

section \<open>The store client\<close>

text \<open>
  The ioredis client is a collaborator of the handlers. It is a parameter of the model:
  \<^item> \<open>redis_call name args\<close> is how \<^verbatim>\<open>await redis.call(name, ...args)\<close> settles;
  \<^item> \<open>redis_pipeline\<close> is the fault \<^verbatim>\<open>redis.pipeline()\<close> throws, if any;
  \<^item> \<open>pipeline_call name args\<close> is the fault \<^verbatim>\<open>pipeline.call(name, ...args)\<close> throws, if any;
  \<^item> \<open>pipeline_exec queue\<close> is how \<^verbatim>\<open>await pipeline.exec()\<close> settles for the queued
    commands: rejected, resolved with \<^verbatim>\<open>null\<close>, or resolved with a list of
    \<^verbatim>\<open>[error, result]\<close> pairs.
  What the handler does to the client is recorded as a list of events.
\<close>

type_synonym outcome = "js_error option \<times> json"

type_synonym queued = "json \<times> json list"

record store =
  redis_call :: "json \<Rightarrow> json list \<Rightarrow> js_error + json"
  redis_pipeline :: "js_error option"
  pipeline_call :: "json \<Rightarrow> json list \<Rightarrow> js_error option"
  pipeline_exec :: "queued list \<Rightarrow> js_error + outcome list option"

datatype event =
    RedisCall json "json list"
  | RedisPipeline
  | PipelineCall json "json list"
  | PipelineExec "queued list"

section \<open>POST /\<close>

definition post_single :: "store \<Rightarrow> json option \<Rightarrow> response \<times> event list" where
  "post_single redis decoded =
     (case decoded of
        None \<Rightarrow> (c_json (error_obj ''Invalid JSON body'') 400, [])
      | Some b \<Rightarrow>
          if \<not> isArray b then
            (c_json (error_obj ''Request body must be an array of command and arguments'') 400, [])
          else if length (elems b) = 0 then
            (c_json (error_obj ''Command array cannot be empty'') 400, [])
          else
            (case redis_call redis (command_name b) (command_args b) of
               Inr result \<Rightarrow>
                 (c_json (result_obj result) 200, [RedisCall (command_name b) (command_args b)])
             | Inl error \<Rightarrow>
                 (c_json (error_obj (''Failed to execute Redis command: '' @ error_message error)) 500,
                  [RedisCall (command_name b) (command_args b)])))"

section \<open>POST /pipeline\<close>

text \<open>The loop that checks every command, lines 114 to 127.\<close>

function validate_commands :: "nat \<Rightarrow> json list \<Rightarrow> response option" where
  "validate_commands i cmds =
     (if i < length cmds then
        (if \<not> isArray (cmds ! i) then
           Some (c_json (error_obj (''Command at index '' @ show_nat i @ '' must be an array'')) 400)
         else if length (elems (cmds ! i)) = 0 then
           Some (c_json (error_obj (''Command at index '' @ show_nat i @ '' cannot be empty'')) 400)
         else validate_commands (Suc i) cmds)
      else None)"
  by pat_completeness auto
termination
  by (relation "measure (\<lambda>(i, cmds). length cmds - i)") auto

declare validate_commands.simps [simp del]

text \<open>
  The loop that adds every command to the pipeline, lines 133 to 135. The pipeline
  object is the list of the commands queued so far.
\<close>

fun add_commands :: "store \<Rightarrow> json list \<Rightarrow> queued list \<Rightarrow> (js_error + queued list) \<times> event list" where
  "add_commands redis [] queue = (Inr queue, [])"
| "add_commands redis (command # rest) queue =
     (case pipeline_call redis (command_name command) (command_args command) of
        Some error \<Rightarrow> (Inl error, [PipelineCall (command_name command) (command_args command)])
      | None \<Rightarrow>
          (case add_commands redis rest (queue @ [(command_name command, command_args command)]) of
             (r, evs) \<Rightarrow> (r, PipelineCall (command_name command) (command_args command) # evs)))"

text \<open>Lines 130 to 138: build the pipeline and await \<^verbatim>\<open>pipeline.exec()\<close>.\<close>

definition exec_pipeline :: "store \<Rightarrow> json list \<Rightarrow> (js_error + outcome list option) \<times> event list" where
  "exec_pipeline redis cmds =
     (case redis_pipeline redis of
        Some error \<Rightarrow> (Inl error, [RedisPipeline])
      | None \<Rightarrow>
          (case add_commands redis cmds [] of
             (Inl error, evs) \<Rightarrow> (Inl error, RedisPipeline # evs)
           | (Inr queue, evs) \<Rightarrow>
               (pipeline_exec redis queue, RedisPipeline # evs @ [PipelineExec queue])))"

text \<open>The callback of \<^verbatim>\<open>results.map\<close>, lines 149 to 154.\<close>

fun upstash_entry :: "outcome \<Rightarrow> json" where
  "upstash_entry (Some error, result) = error_obj (message error)"
| "upstash_entry (None, result) = result_obj result"

definition post_pipeline :: "store \<Rightarrow> json option \<Rightarrow> response \<times> event list" where
  "post_pipeline redis decoded =
     (case decoded of
        None \<Rightarrow> (c_json (error_obj ''Invalid JSON body'') 400, [])
      | Some b \<Rightarrow>
          if \<not> isArray b then
            (c_json (error_obj ''Request body must be an array of commands'') 400, [])
          else if length (elems b) = 0 then
            (c_json (error_obj ''Pipeline cannot be empty'') 400, [])
          else
            (case validate_commands 0 (elems b) of
               Some r \<Rightarrow> (r, [])
             | None \<Rightarrow>
                 (case exec_pipeline redis (elems b) of
                    (Inl error, evs) \<Rightarrow>
                      (c_json (error_obj (''Failed to execute pipeline: '' @ error_message error)) 500, evs)
                  | (Inr None, evs) \<Rightarrow>
                      (c_json (error_obj ''Pipeline execution returned no results'') 500, evs)
                  | (Inr (Some results), evs) \<Rightarrow>
                      (c_json (JArr (map upstash_entry results)) 200, evs))))"

section \<open>The error handler and the application\<close>

text \<open>\<^verbatim>\<open>app.onError\<close>, lines 168 to 179.\<close>

definition onError :: "js_error \<Rightarrow> response" where
  "onError err =
     (case err_status err of
        Some st \<Rightarrow> (case err_res err of Some r \<Rightarrow> r | None \<Rightarrow> c_text ''Unauthorized'' st)
      | None \<Rightarrow> c_json (error_obj ''Internal server error'') 500)"

text \<open>
  A request as the application sees it: method, path, the \<^verbatim>\<open>Authorization\<close> header, and
  what \<^verbatim>\<open>c.req.json()\<close> gives for its body (\<open>None\<close> when decoding throws).
\<close>

record request =
  req_method :: string
  req_path :: string
  authorization :: "string option"
  req_json :: "json option"

text \<open>
  Hono's router, for the paths this application registers: a path without a wildcard
  or a parameter matches the request path that is equal to it, and \<^verbatim>\<open>*\<close> matches every
  path.
\<close>

definition path_matches :: "string \<Rightarrow> string \<Rightarrow> bool" where
  "path_matches pattern path = (if pattern = ''*'' then True else pattern = path)"

text \<open>
  The application built by \<^verbatim>\<open>createApp\<close>. The middleware factory \<^verbatim>\<open>bearerAuth\<close> of Hono
  and the client \<^verbatim>\<open>new Redis(redisUrl)\<close> are parameters: \<open>bearerAuth token req\<close> is the
  exception the middleware throws for the request, \<open>None\<close> when it calls \<^verbatim>\<open>next()\<close>.
  The middleware is registered by \<^verbatim>\<open>app.use("/", ...)\<close>, the handlers by
  \<^verbatim>\<open>app.post("/", ...)\<close> and \<^verbatim>\<open>app.post("/pipeline", ...)\<close>; a request that no handler
  matches gets Hono's 404 response.
\<close>

definition app_fetch ::
  "(string \<Rightarrow> request \<Rightarrow> js_error option) \<Rightarrow> store \<Rightarrow> string \<Rightarrow> request \<Rightarrow> response \<times> event list" where
  "app_fetch bearerAuth redis token req =
     (case (if path_matches ''/'' (req_path req) then bearerAuth token req else None) of
        Some err \<Rightarrow> (onError err, [])
      | None \<Rightarrow>
          if req_method req = ''POST'' \<and> path_matches ''/'' (req_path req) then
            post_single redis (req_json req)
          else if req_method req = ''POST'' \<and> path_matches ''/pipeline'' (req_path req) then
            post_pipeline redis (req_json req)
          else (c_text ''404 Not Found'' 404, []))"

definition createApp ::
  "(string \<Rightarrow> request \<Rightarrow> js_error option) \<Rightarrow> store \<Rightarrow> string
     \<Rightarrow> string + (request \<Rightarrow> response \<times> event list)" where
  "createApp bearerAuth redis token =
     (if token = [] then Inl ''token is required in configuration''
      else Inr (app_fetch bearerAuth redis token))"

section \<open>Notions the properties are stated with\<close>

text \<open>A command that passes the checks of the validation loop: a non-empty array.\<close>

definition well_formed_command :: "json \<Rightarrow> bool" where
  "well_formed_command c = (isArray c \<and> elems c \<noteq> [])"

text \<open>The commands as \<^verbatim>\<open>pipeline.call\<close> receives them, in the order of the body.\<close>

definition queue_of :: "json list \<Rightarrow> queued list" where
  "queue_of cmds = map (\<lambda>c. (command_name c, command_args c)) cmds"

definition call_events :: "json list \<Rightarrow> event list" where
  "call_events cmds = map (\<lambda>c. PipelineCall (command_name c) (command_args c)) cmds"

text \<open>Neither \<^verbatim>\<open>redis.pipeline()\<close> nor any \<^verbatim>\<open>pipeline.call\<close> throws for these commands.\<close>

definition builds :: "store \<Rightarrow> json list \<Rightarrow> bool" where
  "builds redis cmds =
     (redis_pipeline redis = None
      \<and> list_all (\<lambda>c. pipeline_call redis (command_name c) (command_args c) = None) cmds)"

text \<open>The bodies that the validation of each handler rejects.\<close>

definition single_invalid :: "json option \<Rightarrow> bool" where
  "single_invalid decoded =
     (case decoded of None \<Rightarrow> True | Some b \<Rightarrow> \<not> isArray b \<or> elems b = [])"

definition pipeline_invalid :: "json option \<Rightarrow> bool" where
  "pipeline_invalid decoded =
     (case decoded of
        None \<Rightarrow> True
      | Some b \<Rightarrow> \<not> isArray b \<or> elems b = [] \<or> \<not> list_all well_formed_command (elems b))"

text \<open>
  A fault of the whole pipeline request: its body is rejected, or the batch does not
  come back with a list of outcomes (an exception, or no list).
\<close>

definition request_level_fault :: "store \<Rightarrow> json option \<Rightarrow> bool" where
  "request_level_fault redis decoded =
     (case decoded of
        None \<Rightarrow> True
      | Some b \<Rightarrow>
          pipeline_invalid (Some b)
          \<or> (case fst (exec_pipeline redis (elems b)) of
                Inr (Some outs) \<Rightarrow> False
              | Inr None \<Rightarrow> True
              | Inl e \<Rightarrow> True))"

text \<open>The entries of a response whose body is a JSON array.\<close>

definition response_entries :: "response \<Rightarrow> json list" where
  "response_entries r = (case res_body r of JsonBody (JArr es) \<Rightarrow> es | _ \<Rightarrow> [])"

fun is_RedisCall :: "event \<Rightarrow> bool" where
  "is_RedisCall (RedisCall name args) = True"
| "is_RedisCall ev = False"

fun is_PipelineExec :: "event \<Rightarrow> bool" where
  "is_PipelineExec (PipelineExec queue) = True"
| "is_PipelineExec ev = False"

section \<open>Stores and faults to evaluate the handlers on\<close>

definition reply_error :: "string \<Rightarrow> js_error" where
  "reply_error m =
     \<lparr>instanceof_Error = True, message = m, as_String = ''ReplyError: '' @ m,
      err_status = None, err_res = None, stack = ''ReplyError: '' @ m @ '' at parseError''\<rparr>"

text \<open>A store that answers PING with PONG and rejects every other command.\<close>

definition ping_reply :: "json \<Rightarrow> js_error + json" where
  "ping_reply name =
     (if name = JStr ''PING'' then Inr (JStr ''PONG'')
      else Inl (reply_error ''ERR unknown command''))"

fun ping_outcome :: "queued \<Rightarrow> outcome" where
  "ping_outcome (name, args) =
     (case ping_reply name of Inr v \<Rightarrow> (None, v) | Inl e \<Rightarrow> (Some e, JNull))"

definition ping_store :: store where
  "ping_store =
     \<lparr>redis_call = (\<lambda>name args. ping_reply name),
      redis_pipeline = None,
      pipeline_call = (\<lambda>name args. None),
      pipeline_exec = (\<lambda>queue. Inr (Some (map ping_outcome queue)))\<rparr>"

text \<open>A store whose \<^verbatim>\<open>exec\<close> resolves with \<^verbatim>\<open>null\<close>, and one whose \<^verbatim>\<open>exec\<close> rejects.\<close>

definition null_store :: store where
  "null_store = ping_store\<lparr>pipeline_exec := (\<lambda>queue. Inr None)\<rparr>"

definition down_store :: store where
  "down_store = ping_store\<lparr>pipeline_exec := (\<lambda>queue. Inl (reply_error ''Connection is closed.''))\<rparr>"

text \<open>A store that faults on the second command of a batch only.\<close>

definition second_fails :: store where
  "second_fails =
     ping_store\<lparr>pipeline_exec := (\<lambda>queue.
        Inr (Some (map (\<lambda>(i, c). if i = 1 then (Some (reply_error ''ERR syntax error''), JNull)
                                  else ping_outcome c)
                   (enumerate 0 queue))))\<rparr>"

text \<open>A store whose \<^verbatim>\<open>pipeline.call\<close> throws for a name that is not a string.\<close>

definition strict_store :: store where
  "strict_store =
     ping_store\<lparr>pipeline_call := (\<lambda>name args.
        case name of JStr s \<Rightarrow> None | _ \<Rightarrow> Some (reply_error ''name.toLowerCase is not a function''))\<rparr>"

text \<open>
  The exception of Hono's authentication middleware: an \<^verbatim>\<open>HTTPException\<close> with a
  status and, when given, a prepared response.
\<close>

definition http_exception :: "nat \<Rightarrow> response option \<Rightarrow> js_error" where
  "http_exception st r =
     \<lparr>instanceof_Error = True, message = [], as_String = ''Error'',
      err_status = Some st, err_res = r, stack = ''Error at bearerAuth''\<rparr>"

text \<open>
  A stand-in for the middleware: it lets a request pass when its header is \<^verbatim>\<open>Bearer\<close>
  followed by the token, and rejects every other request with 401.
\<close>

definition demo_bearerAuth :: "string \<Rightarrow> request \<Rightarrow> js_error option" where
  "demo_bearerAuth token req =
     (if authorization req = Some (''Bearer '' @ token) then None
      else Some (http_exception 401 (Some (c_text ''Unauthorized'' 401))))"

section \<open>Validation of a single command\<close>

lemma command_name_Cons [simp]: "command_name (JArr (x # xs)) = x"
  by (simp add: command_name_def)

lemma command_args_Cons [simp]: "command_args (JArr (x # xs)) = xs"
  by (simp add: command_args_def)

lemma post_single_decode_fault:
  "post_single redis None = (c_json (error_obj ''Invalid JSON body'') 400, [])"
  by (simp add: post_single_def)

lemma post_single_not_array:
  "\<not> isArray b \<Longrightarrow>
   post_single redis (Some b) =
     (c_json (error_obj ''Request body must be an array of command and arguments'') 400, [])"
  by (simp add: post_single_def)

lemma post_single_empty:
  "post_single redis (Some (JArr [])) = (c_json (error_obj ''Command array cannot be empty'') 400, [])"
  by (simp add: post_single_def)

lemma post_single_command:
  "post_single redis (Some (JArr (name # args))) =
     (case redis_call redis name args of
        Inr result \<Rightarrow> (c_json (result_obj result) 200, [RedisCall name args])
      | Inl error \<Rightarrow>
          (c_json (error_obj (''Failed to execute Redis command: '' @ error_message error)) 500,
           [RedisCall name args]))"
  by (simp add: post_single_def split: sum.splits)

text \<open>
  C3: POST / checks its body in a fixed order and the first failing rule decides the
  response: a body that does not decode gives 400 "Invalid JSON body"; a decoded value
  that is not an array gives 400 "Request body must be an array of command and
  arguments"; an empty array gives 400 "Command array cannot be empty"; any other body
  is a command, the store is called with its name and arguments, and the response is
  not a 400.
\<close>

theorem post_single_validation_order:
  "(decoded = None \<longrightarrow>
      post_single redis decoded = (c_json (error_obj ''Invalid JSON body'') 400, []))
   \<and> (decoded = Some b \<and> \<not> isArray b \<longrightarrow>
      post_single redis decoded =
        (c_json (error_obj ''Request body must be an array of command and arguments'') 400, []))
   \<and> (decoded = Some (JArr []) \<longrightarrow>
      post_single redis decoded = (c_json (error_obj ''Command array cannot be empty'') 400, []))
   \<and> (decoded = Some (JArr (name # args)) \<longrightarrow>
      snd (post_single redis decoded) = [RedisCall name args]
      \<and> res_status (fst (post_single redis decoded)) \<noteq> 400)"
  by (auto simp: post_single_decode_fault post_single_not_array post_single_empty
      post_single_command c_json_def split: sum.splits)

theorem post_single_validation_order_witness:
  "post_single ping_store None = (c_json (error_obj ''Invalid JSON body'') 400, [])
   \<and> post_single ping_store (Some (JObj [])) =
       (c_json (error_obj ''Request body must be an array of command and arguments'') 400, [])
   \<and> post_single ping_store (Some (JArr [])) =
       (c_json (error_obj ''Command array cannot be empty'') 400, [])
   \<and> snd (post_single ping_store (Some (JArr [JStr ''PING'']))) = [RedisCall (JStr ''PING'') []]
   \<and> res_status (fst (post_single ping_store (Some (JArr [JStr ''PING''])))) \<noteq> 400"
  using post_single_validation_order [of None ping_store]
    post_single_validation_order [of "Some (JObj [])" ping_store "JObj []"]
    post_single_validation_order [of "Some (JArr [])" ping_store]
    post_single_validation_order [of "Some (JArr [JStr ''PING''])" ping_store _ "JStr ''PING''" "[]"]
  by simp

section \<open>The two loops of the pipeline handler\<close>

lemma add_commands_builds:
  "list_all (\<lambda>c. pipeline_call redis (command_name c) (command_args c) = None) cmds \<Longrightarrow>
   add_commands redis cmds queue = (Inr (queue @ queue_of cmds), call_events cmds)"
  by (induction cmds arbitrary: queue) (simp_all add: queue_of_def call_events_def)

lemma exec_pipeline_builds:
  "builds redis cmds \<Longrightarrow>
   exec_pipeline redis cmds =
     (pipeline_exec redis (queue_of cmds), RedisPipeline # call_events cmds @ [PipelineExec (queue_of cmds)])"
  by (simp add: exec_pipeline_def builds_def add_commands_builds)

lemma validate_commands_None_iff:
  "validate_commands i cmds = None \<longleftrightarrow> list_all well_formed_command (drop i cmds)"
proof (induction i cmds rule: validate_commands.induct)
  case (1 i cmds)
  show ?case
  proof (cases "i < length cmds")
    case False
    then show ?thesis by (simp add: validate_commands.simps [of i cmds])
  next
    case True
    then have d: "drop i cmds = cmds ! i # drop (Suc i) cmds"
      by (simp add: Cons_nth_drop_Suc)
    show ?thesis
    proof (cases "well_formed_command (cmds ! i)")
      case False
      with True d show ?thesis
        by (auto simp: validate_commands.simps [of i cmds] well_formed_command_def)
    next
      case wf: True
      with True have "validate_commands i cmds = validate_commands (Suc i) cmds"
        by (simp add: validate_commands.simps [of i cmds] well_formed_command_def)
      moreover from wf have a: "\<not> \<not> isArray (cmds ! i)" "\<not> length (elems (cmds ! i)) = 0"
        by (simp_all add: well_formed_command_def)
      have "validate_commands (Suc i) cmds = None \<longleftrightarrow>
          list_all well_formed_command (drop (Suc i) cmds)"
        by (rule "1.IH" [OF True a])
      ultimately show ?thesis using d wf by simp
    qed
  qed
qed

lemma validate_commands_first:
  "i \<le> k \<Longrightarrow> k < length cmds \<Longrightarrow> \<forall>j. i \<le> j \<and> j < k \<longrightarrow> well_formed_command (cmds ! j) \<Longrightarrow>
   \<not> well_formed_command (cmds ! k) \<Longrightarrow>
   validate_commands i cmds =
     Some (c_json (error_obj (''Command at index '' @ show_nat k @
        (if \<not> isArray (cmds ! k) then '' must be an array'' else '' cannot be empty''))) 400)"
proof (induction i cmds rule: validate_commands.induct)
  case (1 i cmds)
  show ?case
  proof (cases "i = k")
    case True
    with "1.prems" show ?thesis
      by (simp add: validate_commands.simps [of k cmds] well_formed_command_def)
  next
    case False
    with "1.prems" have lt: "i < k" and wf: "well_formed_command (cmds ! i)" by auto
    from lt "1.prems" have il: "i < length cmds" by simp
    from wf il have step: "validate_commands i cmds = validate_commands (Suc i) cmds"
      by (simp add: validate_commands.simps [of i cmds] well_formed_command_def)
    from wf have a: "\<not> \<not> isArray (cmds ! i)" "\<not> length (elems (cmds ! i)) = 0"
      by (simp_all add: well_formed_command_def)
    have "validate_commands (Suc i) cmds =
      Some (c_json (error_obj (''Command at index '' @ show_nat k @
        (if \<not> isArray (cmds ! k) then '' must be an array'' else '' cannot be empty''))) 400)"
      using lt "1.prems" by (intro "1.IH" [OF il a]) auto
    with step show ?thesis by simp
  qed
qed

section \<open>Responses of the handlers by kind of body\<close>

lemma validate_commands_pass:
  "list_all well_formed_command cmds \<Longrightarrow> validate_commands 0 cmds = None"
  by (simp add: validate_commands_None_iff)

lemma post_pipeline_valid:
  "cmds \<noteq> [] \<Longrightarrow> list_all well_formed_command cmds \<Longrightarrow>
   post_pipeline redis (Some (JArr cmds)) =
     (case exec_pipeline redis cmds of
        (Inl error, evs) \<Rightarrow>
          (c_json (error_obj (''Failed to execute pipeline: '' @ error_message error)) 500, evs)
      | (Inr None, evs) \<Rightarrow>
          (c_json (error_obj ''Pipeline execution returned no results'') 500, evs)
      | (Inr (Some results), evs) \<Rightarrow>
          (c_json (JArr (map upstash_entry results)) 200, evs))"
  by (simp add: post_pipeline_def validate_commands_pass)

lemma validate_commands_status:
  "validate_commands i cmds = Some r \<Longrightarrow> res_status r = 400"
proof (induction i cmds rule: validate_commands.induct)
  case (1 i cmds)
  from "1.prems" show ?case
    by (subst (asm) validate_commands.simps) (auto simp: c_json_def "1.IH" split: if_splits)
qed

lemma post_pipeline_invalid:
  "pipeline_invalid decoded \<Longrightarrow>
   res_status (fst (post_pipeline redis decoded)) = 400 \<and> snd (post_pipeline redis decoded) = []"
proof (cases decoded)
  case None
  then show ?thesis by (simp add: post_pipeline_def c_json_def)
next
  case (Some b)
  assume inv: "pipeline_invalid decoded"
  show ?thesis
  proof (cases "validate_commands 0 (elems b)")
    case None
    then have "list_all well_formed_command (elems b)"
      by (simp add: validate_commands_None_iff)
    with inv Some show ?thesis
      by (auto simp: pipeline_invalid_def post_pipeline_def c_json_def)
  next
    case (Some r)
    then have "res_status r = 400"
      by (rule validate_commands_status)
    with Some \<open>decoded = Some b\<close> show ?thesis
      by (simp add: post_pipeline_def c_json_def)
  qed
qed


lemma post_pipeline_400:
  "res_status (fst (post_pipeline redis decoded)) = 400 \<Longrightarrow> pipeline_invalid decoded"
proof (rule ccontr)
  assume st: "res_status (fst (post_pipeline redis decoded)) = 400"
  assume "\<not> pipeline_invalid decoded"
  then obtain cmds where d: "decoded = Some (JArr cmds)" and ne: "cmds \<noteq> []"
    and wf: "list_all well_formed_command cmds"
    by (cases decoded; cases "the decoded") (auto simp: pipeline_invalid_def)
  from st show False
    unfolding d post_pipeline_valid [OF ne wf]
    by (auto simp: c_json_def split: prod.splits sum.splits option.splits)
qed

lemma post_single_invalid:
  "single_invalid decoded \<Longrightarrow>
   res_status (fst (post_single redis decoded)) = 400 \<and> snd (post_single redis decoded) = []"
  by (cases decoded) (auto simp: single_invalid_def post_single_def c_json_def)

lemma post_single_400:
  "res_status (fst (post_single redis decoded)) = 400 \<Longrightarrow> single_invalid decoded"
  by (cases decoded)
    (auto simp: single_invalid_def post_single_def c_json_def split: if_splits sum.splits)

section \<open>Indices in messages, and the validation and execution claims\<close>

lemma digit_char_inj: "a < 10 \<Longrightarrow> b < 10 \<Longrightarrow> digit_char a = digit_char b \<Longrightarrow> a = b"
proof -
  assume a: "a < 10" and b: "b < 10" and e: "digit_char a = digit_char b"
  from a have "a \<in> {0,1,2,3,4,5,6,7,8,9}" by auto
  moreover from b have "b \<in> {0,1,2,3,4,5,6,7,8,9}" by auto
  ultimately show ?thesis using e by (auto simp: digit_char_def)
qed

lemma show_nat_not_Nil: "show_nat n \<noteq> []"
  by (subst show_nat.simps) simp

lemma show_nat_last: "last (show_nat n) = digit_char (n mod 10)"
  by (subst show_nat.simps) simp

lemma show_nat_butlast: "butlast (show_nat n) = (if n < 10 then [] else show_nat (n div 10))"
  by (subst show_nat.simps) simp

lemma show_nat_inj: "show_nat a = show_nat b \<Longrightarrow> a = b"
proof (induction a arbitrary: b rule: less_induct)
  case (less a)
  from less.prems have l: "digit_char (a mod 10) = digit_char (b mod 10)"
    using show_nat_last by metis
  then have m: "a mod 10 = b mod 10"
    by (intro digit_char_inj) simp_all
  from less.prems have bl: "(if a < 10 then [] else show_nat (a div 10)) =
      (if b < 10 then [] else show_nat (b div 10))"
    using show_nat_butlast by metis
  show ?case
  proof (cases "a < 10")
    case True
    with bl have "b < 10" using show_nat_not_Nil [of "b div 10"] by (auto split: if_splits)
    with True m show ?thesis by simp
  next
    case False
    with bl have b10: "\<not> b < 10" using show_nat_not_Nil [of "a div 10"] by (auto split: if_splits)
    with False bl have "show_nat (a div 10) = show_nat (b div 10)" by simp
    moreover from False have "a div 10 < a" by simp
    ultimately have "a div 10 = b div 10" by (rule less.IH [rotated])
    with m show ?thesis by (metis div_mult_mod_eq)
  qed
qed

text \<open>
  C4: for a pipeline body that is a non-empty array, the elements are checked at
  ascending indices. When \<open>k\<close> is the smallest index whose element is not a non-empty
  array, the response is 400 with "Command at index k must be an array" if that element
  is not an array, and 400 with "Command at index k cannot be empty" if it is an empty
  array, whatever the elements after \<open>k\<close> are; nothing is sent to the store. The index
  is printed in decimal, and different indices print differently (\<open>show_nat_inj\<close>).
\<close>

theorem pipeline_first_offending_index:
  assumes "k < length cmds" and "\<forall>j<k. well_formed_command (cmds ! j)"
  shows "(\<not> isArray (cmds ! k) \<longrightarrow>
            post_pipeline redis (Some (JArr cmds)) =
              (c_json (error_obj (''Command at index '' @ show_nat k @ '' must be an array'')) 400, []))
         \<and> (isArray (cmds ! k) \<and> elems (cmds ! k) = [] \<longrightarrow>
            post_pipeline redis (Some (JArr cmds)) =
              (c_json (error_obj (''Command at index '' @ show_nat k @ '' cannot be empty'')) 400, []))"
proof -
  from assms(1) have ne: "cmds \<noteq> []" by auto
  have v: "validate_commands 0 cmds =
     Some (c_json (error_obj (''Command at index '' @ show_nat k @
        (if \<not> isArray (cmds ! k) then '' must be an array'' else '' cannot be empty''))) 400)"
    if "\<not> well_formed_command (cmds ! k)"
    using assms that by (intro validate_commands_first) auto
  show ?thesis
  proof (intro conjI impI)
    assume "\<not> isArray (cmds ! k)"
    then show "post_pipeline redis (Some (JArr cmds)) =
              (c_json (error_obj (''Command at index '' @ show_nat k @ '' must be an array'')) 400, [])"
      using v ne by (simp add: post_pipeline_def well_formed_command_def)
  next
    assume "isArray (cmds ! k) \<and> elems (cmds ! k) = []"
    then show "post_pipeline redis (Some (JArr cmds)) =
              (c_json (error_obj (''Command at index '' @ show_nat k @ '' cannot be empty'')) 400, [])"
      using v ne by (simp add: post_pipeline_def well_formed_command_def)
  qed
qed

theorem pipeline_first_offending_index_witness:
  "post_pipeline ping_store (Some (JArr [JArr [JStr ''PING''], JStr ''invalid''])) =
     (c_json (error_obj ''Command at index 1 must be an array'') 400, [])
   \<and> post_pipeline ping_store (Some (JArr [JArr [JStr ''PING''], JArr [], JNum 7])) =
     (c_json (error_obj ''Command at index 1 cannot be empty'') 400, [])"
  using pipeline_first_offending_index [of 1 "[JArr [JStr ''PING''], JStr ''invalid'']" ping_store]
    pipeline_first_offending_index [of 1 "[JArr [JStr ''PING''], JArr [], JNum 7]" ping_store]
  by (simp add: well_formed_command_def show_nat.simps digit_char_def)

text \<open>
  C10: a request whose body fails validation (it does not decode, is not an array, is
  empty, or for a pipeline has an element that is not a non-empty array) is answered
  with 400 and the store client is not touched: the list of store events is empty, also
  for the commands before the first offending one. Conversely a 400 response of either
  handler never comes with a store event.
\<close>

theorem validation_failure_no_store_call:
  "(single_invalid decoded \<longrightarrow>
      res_status (fst (post_single redis decoded)) = 400 \<and> snd (post_single redis decoded) = [])
   \<and> (pipeline_invalid decoded \<longrightarrow>
      res_status (fst (post_pipeline redis decoded)) = 400 \<and> snd (post_pipeline redis decoded) = [])
   \<and> (res_status (fst (post_single redis decoded)) = 400 \<longrightarrow> snd (post_single redis decoded) = [])
   \<and> (res_status (fst (post_pipeline redis decoded)) = 400 \<longrightarrow> snd (post_pipeline redis decoded) = [])"
  using post_single_invalid post_single_400 post_pipeline_invalid post_pipeline_400 by blast

theorem validation_failure_no_store_call_witness:
  "single_invalid (Some (JObj []))
   \<and> res_status (fst (post_single ping_store (Some (JObj [])))) = 400
   \<and> snd (post_single ping_store (Some (JObj []))) = []
   \<and> pipeline_invalid (Some (JArr [JArr [JStr ''PING''], JArr []]))
   \<and> res_status (fst (post_pipeline ping_store (Some (JArr [JArr [JStr ''PING''], JArr []])))) = 400
   \<and> snd (post_pipeline ping_store (Some (JArr [JArr [JStr ''PING''], JArr []]))) = []"
  using validation_failure_no_store_call [of "Some (JObj [])" ping_store]
    validation_failure_no_store_call [of "Some (JArr [JArr [JStr ''PING''], JArr []])" ping_store]
  by (simp add: single_invalid_def pipeline_invalid_def well_formed_command_def)

text \<open>
  C5: for a validated single command, a value returned by the store gives 200 with
  \<^verbatim>\<open>{"result": value}\<close>, a fault of the store with message \<open>m\<close> gives 500 with
  \<^verbatim>\<open>{"error": "Failed to execute Redis command: m"}\<close>, and POST / answers 400 exactly
  for the bodies its validation rejects, so never for a fault of the store.
\<close>

theorem post_single_execution:
  "(redis_call redis name args = Inr v \<longrightarrow>
      post_single redis (Some (JArr (name # args))) =
        (c_json (result_obj v) 200, [RedisCall name args]))
   \<and> (redis_call redis name args = Inl e \<longrightarrow>
      post_single redis (Some (JArr (name # args))) =
        (c_json (error_obj (''Failed to execute Redis command: '' @ error_message e)) 500,
         [RedisCall name args]))
   \<and> (res_status (fst (post_single redis decoded)) = 400 \<longleftrightarrow> single_invalid decoded)"
  using post_single_invalid post_single_400 by (auto simp: post_single_command)

theorem post_single_execution_witness:
  "post_single ping_store (Some (JArr [JStr ''PING''])) =
     (c_json (result_obj (JStr ''PONG'')) 200, [RedisCall (JStr ''PING'') []])
   \<and> post_single ping_store (Some (JArr [JStr ''NOPE'', JStr ''k''])) =
     (c_json (error_obj ''Failed to execute Redis command: ERR unknown command'') 500,
      [RedisCall (JStr ''NOPE'') [JStr ''k'']])
   \<and> res_status (fst (post_single ping_store (Some (JArr [])))) = 400"
  using post_single_execution [of ping_store "JStr ''PING''" "[]" "JStr ''PONG''" _ "Some (JArr [])"]
    post_single_execution [of ping_store "JStr ''NOPE''" "[JStr ''k'']" _
      "reply_error ''ERR unknown command''" "Some (JArr [])"]
  by (simp add: ping_store_def ping_reply_def single_invalid_def error_message_def reply_error_def)

section \<open>Dispatch of a pipeline and its outcomes\<close>

lemma add_commands_step:
  "pipeline_call redis (command_name c) (command_args c) = None \<Longrightarrow>
   add_commands redis (c # rest) queue =
     (fst (add_commands redis rest (queue @ [(command_name c, command_args c)])),
      PipelineCall (command_name c) (command_args c)
        # snd (add_commands redis rest (queue @ [(command_name c, command_args c)])))"
  by (simp split: prod.splits)

lemma add_commands_throw:
  "pipeline_call redis (command_name c) (command_args c) = Some e \<Longrightarrow>
   add_commands redis (c # rest) queue = (Inl e, [PipelineCall (command_name c) (command_args c)])"
  by simp

lemma add_commands_result:
  "fst (add_commands redis cmds queue) = Inr q \<Longrightarrow> q = queue @ queue_of cmds"
proof (induction cmds arbitrary: queue)
  case Nil
  then show ?case by (simp add: queue_of_def)
next
  case (Cons c cmds)
  show ?case
  proof (cases "pipeline_call redis (command_name c) (command_args c)")
    case None
    with Cons.prems have "q = (queue @ [(command_name c, command_args c)]) @ queue_of cmds"
      by (intro Cons.IH) (simp only: add_commands_step [OF None] fst_conv)
    then show ?thesis by (simp add: queue_of_def)
  next
    case (Some e)
    with Cons.prems show ?thesis by (simp add: add_commands_throw)
  qed
qed

lemma add_commands_events:
  "list_all (\<lambda>ev. \<not> is_RedisCall ev \<and> \<not> is_PipelineExec ev) (snd (add_commands redis cmds queue))"
proof (induction cmds arbitrary: queue)
  case Nil
  show ?case by simp
next
  case (Cons c cmds)
  show ?case
  proof (cases "pipeline_call redis (command_name c) (command_args c)")
    case None
    show ?thesis
      unfolding add_commands_step [OF None] using Cons.IH by simp
  next
    case (Some e)
    then show ?thesis by (simp add: add_commands_throw)
  qed
qed

text \<open>A queueing call that throws ends the attempt: \<^verbatim>\<open>exec\<close> is not invoked.\<close>

lemma add_commands_first_throw:
  "k < length cmds \<Longrightarrow>
   \<forall>j<k. pipeline_call redis (command_name (cmds ! j)) (command_args (cmds ! j)) = None \<Longrightarrow>
   pipeline_call redis (command_name (cmds ! k)) (command_args (cmds ! k)) = Some e \<Longrightarrow>
   add_commands redis cmds queue = (Inl e, call_events (take (Suc k) cmds))"
proof (induction cmds arbitrary: k queue)
  case Nil
  then show ?case by simp
next
  case (Cons c cmds)
  show ?case
  proof (cases k)
    case 0
    with Cons.prems show ?thesis by (simp add: call_events_def)
  next
    case (Suc k')
    with Cons.prems have n: "pipeline_call redis (command_name c) (command_args c) = None"
      by auto
    have "add_commands redis cmds (queue @ [(command_name c, command_args c)]) =
        (Inl e, call_events (take (Suc k') cmds))"
      using Cons.prems Suc by (intro Cons.IH) auto
    then show ?thesis
      unfolding add_commands_step [OF n] using Suc by (simp add: call_events_def)
  qed
qed

lemma exec_pipeline_call_throws:
  "redis_pipeline redis = None \<Longrightarrow> k < length cmds \<Longrightarrow>
   \<forall>j<k. pipeline_call redis (command_name (cmds ! j)) (command_args (cmds ! j)) = None \<Longrightarrow>
   pipeline_call redis (command_name (cmds ! k)) (command_args (cmds ! k)) = Some e \<Longrightarrow>
   exec_pipeline redis cmds = (Inl e, RedisPipeline # call_events (take (Suc k) cmds))"
  by (simp add: exec_pipeline_def add_commands_first_throw)

lemma strict_store_throws:
  "post_pipeline strict_store (Some (JArr [JArr [JStr ''PING''], JArr [JNum 5], JArr [JStr ''PING'']])) =
     (c_json (error_obj ''Failed to execute pipeline: name.toLowerCase is not a function'') 500,
      [RedisPipeline, PipelineCall (JStr ''PING'') [], PipelineCall (JNum 5) []])"
  by (simp add: post_pipeline_def validate_commands.simps exec_pipeline_def strict_store_def
      ping_store_def error_message_def reply_error_def)

lemma filter_none: "list_all (\<lambda>ev. \<not> P ev \<and> \<not> Q ev) evs \<Longrightarrow> filter Q evs = []"
  by (induction evs) auto

lemma exec_pipeline_execs:
  "filter is_PipelineExec (snd (exec_pipeline redis cmds)) = []
   \<or> filter is_PipelineExec (snd (exec_pipeline redis cmds)) = [PipelineExec (queue_of cmds)]"
proof (cases "redis_pipeline redis")
  case (Some e)
  then show ?thesis by (simp add: exec_pipeline_def)
next
  case None
  obtain r evs where a: "add_commands redis cmds [] = (r, evs)" by force
  have f: "filter is_PipelineExec evs = []"
    using add_commands_events [of redis cmds "[]"] a by (auto intro: filter_none)
  show ?thesis
  proof (cases r)
    case (Inl e)
    with None a f show ?thesis by (simp add: exec_pipeline_def)
  next
    case (Inr q)
    with a have "q = queue_of cmds" using add_commands_result [of redis cmds "[]" q] by simp
    with Inr None a f show ?thesis by (simp add: exec_pipeline_def)
  qed
qed

lemma exec_pipeline_no_single_call:
  "list_all (\<lambda>ev. \<not> is_RedisCall ev) (snd (exec_pipeline redis cmds))"
proof -
  obtain r evs where a: "add_commands redis cmds [] = (r, evs)" by force
  have "list_all (\<lambda>ev. \<not> is_RedisCall ev) evs"
    using add_commands_events [of redis cmds "[]"] a by (auto simp: list_all_iff)
  with a show ?thesis
    by (auto simp: exec_pipeline_def split: option.splits sum.splits)
qed

lemma post_pipeline_events:
  "cmds \<noteq> [] \<Longrightarrow> list_all well_formed_command cmds \<Longrightarrow>
   snd (post_pipeline redis (Some (JArr cmds))) = snd (exec_pipeline redis cmds)"
  by (simp add: post_pipeline_valid split: prod.splits sum.splits option.splits)

lemma queue_of_commands:
  "list_all well_formed_command cmds \<Longrightarrow> map (\<lambda>(name, args). JArr (name # args)) (queue_of cmds) = cmds"
proof (induction cmds)
  case Nil
  then show ?case by (simp add: queue_of_def)
next
  case (Cons c cmds)
  from Cons.prems obtain name args where "c = JArr (name # args)"
    by (cases c; cases "elems c") (auto simp: well_formed_command_def)
  with Cons show ?case by (simp add: queue_of_def)
qed

lemma add_commands_outcome:
  "(\<exists>e k. k < length cmds \<and> add_commands redis cmds queue = (Inl e, call_events (take (Suc k) cmds)))
   \<or> add_commands redis cmds queue = (Inr (queue @ queue_of cmds), call_events cmds)"
proof (induction cmds arbitrary: queue)
  case Nil
  show ?case by (simp add: queue_of_def call_events_def)
next
  case (Cons c cmds)
  show ?case
  proof (cases "pipeline_call redis (command_name c) (command_args c)")
    case (Some e)
    then have "add_commands redis (c # cmds) queue = (Inl e, call_events (take (Suc 0) (c # cmds)))"
      by (simp add: call_events_def)
    then show ?thesis by blast
  next
    case None
    let ?q = "queue @ [(command_name c, command_args c)]"
    from Cons.IH [of ?q] show ?thesis
    proof
      assume "\<exists>e k. k < length cmds \<and> add_commands redis cmds ?q = (Inl e, call_events (take (Suc k) cmds))"
      then obtain e k where k: "k < length cmds"
        and a: "add_commands redis cmds ?q = (Inl e, call_events (take (Suc k) cmds))" by blast
      have "add_commands redis (c # cmds) queue = (Inl e, call_events (take (Suc (Suc k)) (c # cmds)))"
        unfolding add_commands_step [OF None] a by (simp add: call_events_def)
      moreover from k have "Suc k < length (c # cmds)" by simp
      ultimately show ?thesis by blast
    next
      assume a: "add_commands redis cmds ?q = (Inr (?q @ queue_of cmds), call_events cmds)"
      have "add_commands redis (c # cmds) queue = (Inr (queue @ queue_of (c # cmds)), call_events (c # cmds))"
        unfolding add_commands_step [OF None] a by (simp add: call_events_def queue_of_def)
      then show ?thesis by blast
    qed
  qed
qed

lemma exec_pipeline_prefix:
  "\<exists>n. snd (exec_pipeline redis cmds) =
     take n (RedisPipeline # call_events cmds @ [PipelineExec (queue_of cmds)])"
proof (cases "redis_pipeline redis")
  case (Some e)
  then have "snd (exec_pipeline redis cmds) =
     take 1 (RedisPipeline # call_events cmds @ [PipelineExec (queue_of cmds)])"
    by (simp add: exec_pipeline_def)
  then show ?thesis by blast
next
  case None
  from add_commands_outcome [of cmds redis "[]"] show ?thesis
  proof
    assume "\<exists>e k. k < length cmds \<and> add_commands redis cmds [] = (Inl e, call_events (take (Suc k) cmds))"
    then obtain e k where k: "k < length cmds"
      and a: "add_commands redis cmds [] = (Inl e, call_events (take (Suc k) cmds))" by blast
    from k have "snd (exec_pipeline redis cmds) =
      take (Suc (Suc k)) (RedisPipeline # call_events cmds @ [PipelineExec (queue_of cmds)])"
      by (simp add: exec_pipeline_def None a call_events_def take_map)
    then show ?thesis by blast
  next
    assume a: "add_commands redis cmds [] = (Inr ([] @ queue_of cmds), call_events cmds)"
    have "snd (exec_pipeline redis cmds) =
      take (length cmds + 2) (RedisPipeline # call_events cmds @ [PipelineExec (queue_of cmds)])"
      by (simp add: exec_pipeline_def None a call_events_def)
    then show ?thesis by blast
  qed
qed

text \<open>
  C8: for a validated pipeline of N commands, the handler creates one pipeline, queues
  the N commands on it in the order of the body, and then invokes \<^verbatim>\<open>exec\<close> once on
  that queue; this is the whole interaction when no queueing call throws. In every
  case what the handler does to the store is an initial part of that sequence: it
  never calls \<^verbatim>\<open>redis.call\<close> for a single command, it invokes \<^verbatim>\<open>exec\<close> at most once,
  after all N commands are queued, and that invocation carries the N commands of the
  body in their order.
\<close>

theorem pipeline_single_batch:
  assumes "cmds \<noteq> []" and "list_all well_formed_command cmds"
  shows "(builds redis cmds \<longrightarrow>
            snd (post_pipeline redis (Some (JArr cmds))) =
              RedisPipeline # call_events cmds @ [PipelineExec (queue_of cmds)])
         \<and> (\<exists>n. snd (post_pipeline redis (Some (JArr cmds))) =
              take n (RedisPipeline # call_events cmds @ [PipelineExec (queue_of cmds)]))
         \<and> (filter is_PipelineExec (snd (post_pipeline redis (Some (JArr cmds)))) = []
            \<or> filter is_PipelineExec (snd (post_pipeline redis (Some (JArr cmds)))) =
                [PipelineExec (queue_of cmds)])
         \<and> list_all (\<lambda>ev. \<not> is_RedisCall ev) (snd (post_pipeline redis (Some (JArr cmds))))
         \<and> map (\<lambda>(name, args). JArr (name # args)) (queue_of cmds) = cmds"
  using assms exec_pipeline_execs [of redis cmds] exec_pipeline_no_single_call [of redis cmds]
    exec_pipeline_prefix [of redis cmds]
  by (simp add: post_pipeline_events queue_of_commands exec_pipeline_builds)

theorem pipeline_single_batch_witness:
  "snd (post_pipeline ping_store
      (Some (JArr [JArr [JStr ''SET'', JStr ''k'', JStr ''v''], JArr [JStr ''GET'', JStr ''k'']]))) =
     [RedisPipeline,
      PipelineCall (JStr ''SET'') [JStr ''k'', JStr ''v''],
      PipelineCall (JStr ''GET'') [JStr ''k''],
      PipelineExec [(JStr ''SET'', [JStr ''k'', JStr ''v'']), (JStr ''GET'', [JStr ''k''])]]"
  using pipeline_single_batch
    [of "[JArr [JStr ''SET'', JStr ''k'', JStr ''v''], JArr [JStr ''GET'', JStr ''k'']]" ping_store]
  by (simp add: well_formed_command_def builds_def ping_store_def call_events_def queue_of_def)

lemma post_pipeline_outcomes:
  assumes "cmds \<noteq> []" and "list_all well_formed_command cmds"
    and "fst (exec_pipeline redis cmds) = Inr (Some outs)"
  shows "fst (post_pipeline redis (Some (JArr cmds))) = c_json (JArr (map upstash_entry outs)) 200"
proof -
  obtain r evs where x: "exec_pipeline redis cmds = (r, evs)" by force
  with assms(3) have "r = Inr (Some outs)" by simp
  with x assms(1,2) show ?thesis by (simp add: post_pipeline_valid)
qed

lemma upstash_entry_cases:
  "upstash_entry out =
     (case out of
        (Some e, v) \<Rightarrow> JObj [(''error'', JStr (message e))]
      | (None, v) \<Rightarrow> JObj [(''result'', v)])"
  by (cases out rule: upstash_entry.cases) (simp_all add: error_obj_def result_obj_def)

text \<open>
  C2: for a pipeline body that is a non-empty list of N non-empty commands, when the
  batch comes back with a list of outcomes, one per command, the response is 200 with
  a JSON array of length N whose entry \<open>i\<close> is \<^verbatim>\<open>{"error": m}\<close>, with the message of the
  fault, when outcome \<open>i\<close> is a fault, and \<^verbatim>\<open>{"result": v}\<close> with the value otherwise.
  Entry \<open>i\<close> depends on outcome \<open>i\<close> alone: two runs whose outcomes agree at \<open>i\<close> give
  the same entry \<open>i\<close>, whatever the other outcomes are.
\<close>

theorem pipeline_outcomes_in_order:
  assumes "cmds \<noteq> []" and "list_all well_formed_command cmds"
    and "fst (exec_pipeline redis cmds) = Inr (Some outs)"
    and "length outs = length cmds"
  shows "res_status (fst (post_pipeline redis (Some (JArr cmds)))) = 200
         \<and> res_body (fst (post_pipeline redis (Some (JArr cmds)))) =
             JsonBody (JArr (response_entries (fst (post_pipeline redis (Some (JArr cmds))))))
         \<and> length (response_entries (fst (post_pipeline redis (Some (JArr cmds))))) = length cmds
         \<and> (\<forall>i<length cmds.
               response_entries (fst (post_pipeline redis (Some (JArr cmds)))) ! i =
                 (case outs ! i of
                    (Some e, v) \<Rightarrow> JObj [(''error'', JStr (message e))]
                  | (None, v) \<Rightarrow> JObj [(''result'', v)]))
         \<and> (\<forall>redis' outs' i.
               fst (exec_pipeline redis' cmds) = Inr (Some outs') \<and> length outs' = length cmds
               \<and> i < length cmds \<and> outs' ! i = outs ! i \<longrightarrow>
               response_entries (fst (post_pipeline redis' (Some (JArr cmds)))) ! i =
                 response_entries (fst (post_pipeline redis (Some (JArr cmds)))) ! i)"
proof -
  have r: "fst (post_pipeline redis (Some (JArr cmds))) = c_json (JArr (map upstash_entry outs)) 200"
    using assms(1-3) by (rule post_pipeline_outcomes)
  then have e: "response_entries (fst (post_pipeline redis (Some (JArr cmds)))) = map upstash_entry outs"
    by (simp add: response_entries_def c_json_def)
  have other: "response_entries (fst (post_pipeline redis' (Some (JArr cmds)))) = map upstash_entry outs'"
    if "fst (exec_pipeline redis' cmds) = Inr (Some outs')" for redis' outs'
    using post_pipeline_outcomes [OF assms(1,2) that] by (simp add: response_entries_def c_json_def)
  show ?thesis
    unfolding e using r assms(4) by (auto simp: c_json_def other upstash_entry_cases)
qed

theorem pipeline_outcomes_in_order_witness:
  "fst (exec_pipeline second_fails [JArr [JStr ''PING''], JArr [JStr ''GET''], JArr [JStr ''PING'']]) =
     Inr (Some [(None, JStr ''PONG''), (Some (reply_error ''ERR syntax error''), JNull),
                (None, JStr ''PONG'')])
   \<and> fst (post_pipeline second_fails
      (Some (JArr [JArr [JStr ''PING''], JArr [JStr ''GET''], JArr [JStr ''PING'']]))) =
     c_json (JArr [JObj [(''result'', JStr ''PONG'')],
                   JObj [(''error'', JStr ''ERR syntax error'')],
                   JObj [(''result'', JStr ''PONG'')]]) 200"
proof -
  let ?cmds = "[JArr [JStr ''PING''], JArr [JStr ''GET''], JArr [JStr ''PING'']]"
  let ?outs = "[(None, JStr ''PONG''), (Some (reply_error ''ERR syntax error''), JNull),
                (None, JStr ''PONG'')]"
  have h1: "?cmds \<noteq> []" by simp
  have h2: "list_all well_formed_command ?cmds" by (simp add: well_formed_command_def)
  have h3: "fst (exec_pipeline second_fails ?cmds) = Inr (Some ?outs)"
    by (simp add: exec_pipeline_def second_fails_def ping_store_def ping_reply_def)
  have h4: "length ?outs = length ?cmds" by simp
  have r: "fst (post_pipeline second_fails (Some (JArr ?cmds))) =
      \<lparr>res_status = 200, res_body = JsonBody (JArr (response_entries
         (fst (post_pipeline second_fails (Some (JArr ?cmds))))))\<rparr>"
    using pipeline_outcomes_in_order [OF h1 h2 h3 h4] by simp
  have n: "length (response_entries (fst (post_pipeline second_fails (Some (JArr ?cmds))))) = 3"
    using pipeline_outcomes_in_order [OF h1 h2 h3 h4] by simp
  have e: "response_entries (fst (post_pipeline second_fails (Some (JArr ?cmds)))) ! i =
      [JObj [(''result'', JStr ''PONG'')], JObj [(''error'', JStr ''ERR syntax error'')],
       JObj [(''result'', JStr ''PONG'')]] ! i" if "i < 3" for i
  proof -
    from that have "i = 0 \<or> i = 1 \<or> i = 2" by auto
    then show ?thesis
      using pipeline_outcomes_in_order [OF h1 h2 h3 h4] by (auto simp: reply_error_def)
  qed
  have "response_entries (fst (post_pipeline second_fails (Some (JArr ?cmds)))) =
      [JObj [(''result'', JStr ''PONG'')], JObj [(''error'', JStr ''ERR syntax error'')],
       JObj [(''result'', JStr ''PONG'')]]"
    by (rule nth_equalityI) (simp_all add: n e)
  with r h3 show ?thesis by (simp add: c_json_def)
qed

section \<open>Failure of the whole pipeline, the error handler and authentication\<close>

lemma post_pipeline_no_results:
  assumes "cmds \<noteq> []" and "list_all well_formed_command cmds"
    and "fst (exec_pipeline redis cmds) = Inr None"
  shows "fst (post_pipeline redis (Some (JArr cmds))) =
    c_json (error_obj ''Pipeline execution returned no results'') 500"
proof -
  obtain r evs where x: "exec_pipeline redis cmds = (r, evs)" by force
  with assms(3) have "r = Inr None" by simp
  with x assms(1,2) show ?thesis by (simp add: post_pipeline_valid)
qed

lemma post_pipeline_exception:
  assumes "cmds \<noteq> []" and "list_all well_formed_command cmds"
    and "fst (exec_pipeline redis cmds) = Inl e"
  shows "fst (post_pipeline redis (Some (JArr cmds))) =
    c_json (error_obj (''Failed to execute pipeline: '' @ error_message e)) 500"
proof -
  obtain r evs where x: "exec_pipeline redis cmds = (r, evs)" by force
  with assms(3) have "r = Inl e" by simp
  with x assms(1,2) show ?thesis by (simp add: post_pipeline_valid)
qed

text \<open>
  C6 as stated asks for "Pipeline execution returned no results" whenever the batch
  cannot be performed at all. With a store whose \<^verbatim>\<open>exec\<close> rejects because the
  connection is closed, the batch is not performed and no outcome list comes back, yet
  the response is the one of the \<^verbatim>\<open>catch\<close> block.
\<close>

theorem pipeline_dispatch_failure_counterexample:
  "pipeline_exec down_store (queue_of [JArr [JStr ''PING'']]) =
     Inl (reply_error ''Connection is closed.'')
   \<and> fst (exec_pipeline down_store [JArr [JStr ''PING'']]) = Inl (reply_error ''Connection is closed.'')
   \<and> fst (post_pipeline down_store (Some (JArr [JArr [JStr ''PING'']]))) =
       c_json (error_obj ''Failed to execute pipeline: Connection is closed.'') 500
   \<and> fst (post_pipeline down_store (Some (JArr [JArr [JStr ''PING'']]))) \<noteq>
       c_json (error_obj ''Pipeline execution returned no results'') 500"
  by (simp add: post_pipeline_def validate_commands.simps exec_pipeline_def down_store_def
      ping_store_def error_message_def reply_error_def c_json_def error_obj_def)

text \<open>
  C6, as the code has it: for a validated pipeline request, when the batch resolves
  without a list of outcomes (\<^verbatim>\<open>exec\<close> gives \<^verbatim>\<open>null\<close>) the response is 500 with
  \<^verbatim>\<open>{"error": "Pipeline execution returned no results"}\<close>, an object and not a list of
  outcomes; when an exception with message \<open>m\<close> escapes the attempt the response is 500
  with \<^verbatim>\<open>{"error": "Failed to execute pipeline: m"}\<close>, and that is also the answer when
  the store cannot perform the batch and says so by throwing: \<^verbatim>\<open>redis.pipeline()\<close>
  throws, or \<^verbatim>\<open>exec\<close> rejects.
\<close>

theorem pipeline_total_failure:
  assumes "cmds \<noteq> []" and "list_all well_formed_command cmds"
  shows "(fst (exec_pipeline redis cmds) = Inr None \<longrightarrow>
            fst (post_pipeline redis (Some (JArr cmds))) =
              c_json (error_obj ''Pipeline execution returned no results'') 500)
         \<and> (fst (exec_pipeline redis cmds) = Inl e \<longrightarrow>
            fst (post_pipeline redis (Some (JArr cmds))) =
              c_json (error_obj (''Failed to execute pipeline: '' @ error_message e)) 500)
         \<and> (builds redis cmds \<and> pipeline_exec redis (queue_of cmds) = Inr None \<longrightarrow>
            fst (exec_pipeline redis cmds) = Inr None)
         \<and> (builds redis cmds \<and> pipeline_exec redis (queue_of cmds) = Inl e \<longrightarrow>
            fst (exec_pipeline redis cmds) = Inl e)
         \<and> (redis_pipeline redis = Some e \<longrightarrow> fst (exec_pipeline redis cmds) = Inl e)"
proof -
  have "fst (exec_pipeline redis cmds) = Inl e" if "redis_pipeline redis = Some e"
    using that by (simp add: exec_pipeline_def)
  then show ?thesis
    using assms
    by (auto simp: post_pipeline_no_results post_pipeline_exception exec_pipeline_builds)
qed

theorem pipeline_total_failure_witness:
  "fst (post_pipeline null_store (Some (JArr [JArr [JStr ''PING'']]))) =
     c_json (error_obj ''Pipeline execution returned no results'') 500
   \<and> fst (post_pipeline down_store (Some (JArr [JArr [JStr ''PING'']]))) =
     c_json (error_obj ''Failed to execute pipeline: Connection is closed.'') 500"
proof -
  let ?cmds = "[JArr [JStr ''PING'']]"
  have h1: "?cmds \<noteq> []" by simp
  have h2: "list_all well_formed_command ?cmds" by (simp add: well_formed_command_def)
  have n: "fst (exec_pipeline null_store ?cmds) = Inr None"
    by (simp add: exec_pipeline_def null_store_def ping_store_def)
  have d: "fst (exec_pipeline down_store ?cmds) = Inl (reply_error ''Connection is closed.'')"
    by (simp add: exec_pipeline_def down_store_def ping_store_def)
  show ?thesis
    using pipeline_total_failure [OF h1 h2, of null_store] n
      pipeline_total_failure [OF h1 h2, of down_store "reply_error ''Connection is closed.''"] d
    by (simp add: error_message_def reply_error_def)
qed

text \<open>
  C7: a pipeline request that passes validation and whose batch comes back with a list
  of outcomes is answered with status 200, whatever the outcomes are, also when all of
  them are faults. The status is 200 exactly when there is no fault of the whole
  request (a body that validation rejects, an exception, or no list of outcomes), and
  such a fault gives 400 or 500.
\<close>

theorem pipeline_status_200:
  "(cmds \<noteq> [] \<and> list_all well_formed_command cmds
      \<and> fst (exec_pipeline redis cmds) = Inr (Some outs) \<longrightarrow>
      res_status (fst (post_pipeline redis (Some (JArr cmds)))) = 200)
   \<and> (res_status (fst (post_pipeline redis decoded)) = 200 \<longleftrightarrow> \<not> request_level_fault redis decoded)
   \<and> (request_level_fault redis decoded \<longrightarrow>
        res_status (fst (post_pipeline redis decoded)) = 400
        \<or> res_status (fst (post_pipeline redis decoded)) = 500)"
proof -
  have a: "res_status (fst (post_pipeline redis (Some (JArr cmds)))) = 200"
    if "cmds \<noteq> []" "list_all well_formed_command cmds" "fst (exec_pipeline redis cmds) = Inr (Some outs)"
    using post_pipeline_outcomes [OF that] by (simp add: c_json_def)
  have b: "res_status (fst (post_pipeline redis decoded)) = 200 \<longleftrightarrow> \<not> request_level_fault redis decoded"
    and c: "request_level_fault redis decoded \<longrightarrow>
        res_status (fst (post_pipeline redis decoded)) = 400
        \<or> res_status (fst (post_pipeline redis decoded)) = 500"
  proof (atomize (full), cases "pipeline_invalid decoded")
    case True
    then have "res_status (fst (post_pipeline redis decoded)) = 400"
      by (simp add: post_pipeline_invalid)
    with True show "(res_status (fst (post_pipeline redis decoded)) = 200 \<longleftrightarrow> \<not> request_level_fault redis decoded)
      \<and> (request_level_fault redis decoded \<longrightarrow>
        res_status (fst (post_pipeline redis decoded)) = 400
        \<or> res_status (fst (post_pipeline redis decoded)) = 500)"
      by (cases decoded) (simp_all add: request_level_fault_def)
  next
    case False
    then obtain cmds where d: "decoded = Some (JArr cmds)" and ne: "cmds \<noteq> []"
      and wf: "list_all well_formed_command cmds"
      by (cases decoded; cases "the decoded") (auto simp: pipeline_invalid_def)
    obtain r evs where x: "exec_pipeline redis cmds = (r, evs)" by force
    from False d x show "(res_status (fst (post_pipeline redis decoded)) = 200 \<longleftrightarrow> \<not> request_level_fault redis decoded)
      \<and> (request_level_fault redis decoded \<longrightarrow>
        res_status (fst (post_pipeline redis decoded)) = 400
        \<or> res_status (fst (post_pipeline redis decoded)) = 500)"
      unfolding d post_pipeline_valid [OF ne wf]
      by (auto simp: request_level_fault_def c_json_def split: sum.splits option.splits)
  qed
  from a b c show ?thesis by blast
qed

theorem pipeline_status_200_witness:
  "fst (exec_pipeline ping_store [JArr [JStr ''NOPE''], JArr [JStr ''NADA'']]) =
     Inr (Some [(Some (reply_error ''ERR unknown command''), JNull),
                (Some (reply_error ''ERR unknown command''), JNull)])
   \<and> res_status (fst (post_pipeline ping_store
         (Some (JArr [JArr [JStr ''NOPE''], JArr [JStr ''NADA'']])))) = 200
   \<and> request_level_fault down_store (Some (JArr [JArr [JStr ''PING'']]))
   \<and> res_status (fst (post_pipeline down_store (Some (JArr [JArr [JStr ''PING'']])))) \<noteq> 200"
proof -
  let ?cmds = "[JArr [JStr ''NOPE''], JArr [JStr ''NADA'']]"
  have h: "fst (exec_pipeline ping_store ?cmds) =
     Inr (Some [(Some (reply_error ''ERR unknown command''), JNull),
                (Some (reply_error ''ERR unknown command''), JNull)])"
    by (simp add: exec_pipeline_def ping_store_def ping_reply_def)
  have f: "request_level_fault down_store (Some (JArr [JArr [JStr ''PING'']]))"
    by (simp add: request_level_fault_def pipeline_invalid_def well_formed_command_def
        exec_pipeline_def down_store_def ping_store_def)
  show ?thesis
    using h f pipeline_status_200 [of ?cmds ping_store _ "Some (JArr [JArr [JStr ''PING'']])"]
      pipeline_status_200 [of ?cmds down_store _ "Some (JArr [JArr [JStr ''PING'']])"]
    by (simp add: well_formed_command_def)
qed

text \<open>
  C9: \<^verbatim>\<open>app.onError\<close> answers a fault that carries no numeric status with 500 and
  exactly \<^verbatim>\<open>{"error": "Internal server error"}\<close>. A fault that carries a numeric status
  is what the handler takes for a rejection of the authentication layer: its prepared
  response is returned as it is when there is one, otherwise the text "Unauthorized"
  at that status. The response does not depend on the message, the string form or the
  stack trace of the fault.
\<close>

theorem onError_mapping:
  "(err_status err = None \<longrightarrow> onError err = c_json (error_obj ''Internal server error'') 500)
   \<and> (err_status err = Some st \<and> err_res err = Some r \<longrightarrow> onError err = r)
   \<and> (err_status err = Some st \<and> err_res err = None \<longrightarrow> onError err = c_text ''Unauthorized'' st)
   \<and> onError (err\<lparr>instanceof_Error := b, message := m, as_String := s, stack := t\<rparr>) = onError err"
  by (simp add: onError_def split: option.splits)

theorem onError_mapping_witness:
  "onError (reply_error ''boom'') = c_json (error_obj ''Internal server error'') 500
   \<and> onError (http_exception 401 (Some (c_text ''Unauthorized'' 401))) = c_text ''Unauthorized'' 401
   \<and> onError (http_exception 401 None) = c_text ''Unauthorized'' 401"
  using onError_mapping [of "reply_error ''boom''"]
    onError_mapping [of "http_exception 401 (Some (c_text ''Unauthorized'' 401))" 401
      "c_text ''Unauthorized'' 401"]
    onError_mapping [of "http_exception 401 None" 401]
  by (simp add: reply_error_def http_exception_def)

section \<open>Routes and the authentication middleware\<close>

lemma root_route_bearerAuth:
  "req_path req = ''/'' \<Longrightarrow> bearerAuth token req = Some err \<Longrightarrow>
   app_fetch bearerAuth redis token req = (onError err, [])"
  by (simp add: app_fetch_def path_matches_def)

lemma root_rejects_missing_credential:
  "app_fetch demo_bearerAuth ping_store ''secret''
     \<lparr>req_method = ''POST'', req_path = ''/'', authorization = None,
      req_json = Some (JArr [JStr ''PING''])\<rparr> =
   (c_text ''Unauthorized'' 401, [])"
  by (simp add: app_fetch_def path_matches_def demo_bearerAuth_def onError_def http_exception_def)

lemma pipeline_accepts_missing_credential:
  "app_fetch demo_bearerAuth ping_store ''secret''
     \<lparr>req_method = ''POST'', req_path = ''/pipeline'', authorization = None,
      req_json = Some (JArr [JArr [JStr ''PING'']])\<rparr> =
   (c_json (JArr [result_obj (JStr ''PONG'')]) 200,
    [RedisPipeline, PipelineCall (JStr ''PING'') [], PipelineExec [(JStr ''PING'', [])]])"
  by (simp add: app_fetch_def path_matches_def post_pipeline_def validate_commands.simps
      exec_pipeline_def ping_store_def ping_reply_def)

lemma app_fetch_root_passes:
  "req_method req = ''POST'' \<Longrightarrow> req_path req = ''/'' \<Longrightarrow> bearerAuth token req = None \<Longrightarrow>
   app_fetch bearerAuth redis token req = post_single redis (req_json req)"
  by (simp add: app_fetch_def path_matches_def)

lemma app_fetch_pipeline_route:
  "req_method req = ''POST'' \<Longrightarrow> req_path req = ''/pipeline'' \<Longrightarrow>
   app_fetch bearerAuth redis token req = post_pipeline redis (req_json req)"
  by (simp add: app_fetch_def path_matches_def)

text \<open>
  C1: the authentication middleware is registered for the path \<^verbatim>\<open>/\<close> alone. A POST to
  \<^verbatim>\<open>/pipeline\<close> that carries no credential is not answered with 401: whatever the
  middleware answers for it, the pipeline handler runs, the body is validated, the
  store is invoked, and the response is 200 with the outcomes. (On \<^verbatim>\<open>/\<close> a rejection
  by the middleware is answered before the handler runs, \<open>root_route_bearerAuth\<close>.)
\<close>

theorem pipeline_route_skips_bearerAuth:
  "app_fetch bearerAuth ping_store token
     \<lparr>req_method = ''POST'', req_path = ''/pipeline'', authorization = None,
      req_json = Some (JArr [JArr [JStr ''PING'']])\<rparr> =
   (c_json (JArr [JObj [(''result'', JStr ''PONG'')]]) 200,
    [RedisPipeline, PipelineCall (JStr ''PING'') [], PipelineExec [(JStr ''PING'', [])]])"
  by (simp add: app_fetch_def path_matches_def post_pipeline_def validate_commands.simps
      exec_pipeline_def ping_store_def ping_reply_def result_obj_def)

end
